theory Spec2Isabelle
  imports Complex_Main "HOL-Library.Multiset"
begin

section \<open>Errors raised by the module\<close>

text \<open>
  The module \<open>emnist_dl2prod/utils.py\<close> raises Python exceptions; every raise is a value
  \<open>Inl e\<close> of the model. \<open>ExternalError\<close> stands for any exception coming out of an external
  collaborator (network, archive parser, remote endpoint) that the module lets propagate.
\<close>

datatype error =
    FileNotFoundError string
  | ZeroDivisionError
  | ValueError
  | KeyError
  | IndexError
  | ExternalError

section \<open>Label mapper\<close>

text \<open>Python's \<open>chr\<close> on a code point below 256.\<close>

definition chr :: "nat \<Rightarrow> char" where
  "chr value = char_of value"

text \<open>
  \<open>get_emnist_mapping\<close>: the dictionary \<open>dict(zip(range(10+2*26), digits + uppercase + lowercase))\<close>
  as the association list the \<open>zip\<close> produces (a Python dictionary keeps insertion order);
  \<open>mapping[k]\<close> is \<open>map_of get_emnist_mapping k\<close>, a missing key being \<open>None\<close>.
\<close>

definition get_emnist_mapping :: "(nat \<times> char) list" where
  "get_emnist_mapping =
     (let ascii_digits = [48..<58];
          ascii_uppercase_letters = [65..<65+26];
          ascii_lowercase_letters = [97..<97+26];
          digits = map chr ascii_digits;
          uppercase_letters = map chr ascii_uppercase_letters;
          lowercase_letters = map chr ascii_lowercase_letters
      in zip [0..<10+2*26] (digits @ uppercase_letters @ lowercase_letters))"

section \<open>The archive and its arrays\<close>

text \<open>
  A two-dimensional numpy array as the loader sees it: \<open>rows a ! n ! k\<close> is the element
  \<open>a[n, k]\<close>, whatever the memory layout. \<open>isfortran\<close> is the layout test that numpy's
  \<open>reshape(..., order='A')\<close> consults: the array is Fortran-contiguous in memory and not
  C-contiguous. It is a property of the array that \<open>loadmat\<close> delivers, so it is a field of
  the input.
\<close>

record 'a ndarray2 =
  rows :: "'a list list"
  isfortran :: bool

text \<open>\<open>astype(np.float32)\<close> converts the elements and keeps the layout.\<close>

definition astype_float32 :: "nat ndarray2 \<Rightarrow> real ndarray2" where
  "astype_float32 a = \<lparr>rows = map (map real) (rows a), isfortran = isfortran a\<rparr>"

text \<open>
  \<open>x.reshape((x.shape[0], 28, 28), order='A')\<close>. The sizes must agree, else numpy raises
  ValueError: every row has \<open>28 * 28\<close> elements (an array without rows has size 0 and always
  fits). With \<open>order='A'\<close> the elements are read and written in Fortran index order (first
  index fastest) when the array passes the \<open>isfortran\<close> test, and in C index order (last
  index fastest) otherwise. From a source of shape \<open>(N, 784)\<close> to a target of shape
  \<open>(N, 28, 28)\<close>, Fortran order places \<open>a[n, i + 28 * j]\<close> at \<open>[n, i, j]\<close> and C order places
  \<open>a[n, 28 * i + j]\<close> there.
\<close>

definition reshape_28_28 :: "'a ndarray2 \<Rightarrow> error + 'a list list list" where
  "reshape_28_28 a =
     (if list_all (\<lambda>r. length r = 28 * 28) (rows a)
      then Inr (map (\<lambda>r. map (\<lambda>i. map (\<lambda>j. r ! (if isfortran a then i + 28 * j else 28 * i + j))
                                      [0..<28]) [0..<28]) (rows a))
      else Inl ValueError)"

text \<open>
  What \<open>loadmat(filepath)["dataset"][0][0]\<close> holds: the training bundle (slot 0: images
  \<open>[0][0][0]\<close>, labels \<open>[0][0][1]\<close>), the test bundle (slot 1, the same way) and the mapping
  table (slot 2). A label array has shape \<open>(N, 1)\<close>: \<open>labels ! n\<close> is \<open>y[n][0]\<close>.
\<close>

record archive =
  train_images :: "nat ndarray2"
  train_labels :: "nat list"
  test_images :: "nat ndarray2"
  test_labels :: "nat list"
  mapping_table :: "nat list list"

section \<open>The file system\<close>

datatype file_content = MatFile archive | OtherFile

record filesystem =
  dirs :: "string list"
  files :: "(string \<times> file_content) list"

definition isdir :: "filesystem \<Rightarrow> string \<Rightarrow> bool" where
  "isdir d p = (p \<in> set (dirs d))"

definition isfile :: "filesystem \<Rightarrow> string \<Rightarrow> bool" where
  "isfile d p = (map_of (files d) p \<noteq> None)"

text \<open>\<open>os.path.join\<close> of two components on a POSIX system.\<close>

definition path_join :: "string \<Rightarrow> string \<Rightarrow> string" where
  "path_join a b =
     (if b \<noteq> [] \<and> hd b = CHR ''/'' then b
      else if a = [] \<or> last a = CHR ''/'' then a @ b
      else a @ ''/'' @ b)"

text \<open>
  \<open>scipy.io.loadmat\<close>: a missing file and a file that is no archive of the expected nesting
  both raise; the positional indexing of the loader into the parsed structure is the access to
  the fields of \<open>archive\<close>.
\<close>

definition loadmat :: "filesystem \<Rightarrow> string \<Rightarrow> error + archive" where
  "loadmat d p =
     (case map_of (files d) p of
        None \<Rightarrow> Inl (FileNotFoundError p)
      | Some OtherFile \<Rightarrow> Inl ExternalError
      | Some (MatFile a) \<Rightarrow> Inr a)"

definition EMNIST_FILENAME :: string where
  "EMNIST_FILENAME = ''emnist-byclass.mat''"

text \<open>
  \<open>download_emnist(folder)\<close> is network and file traffic (request, unzip, move): its outcome
  on a file system is a parameter, the file system it leaves behind and the exception it
  raised, if any.
\<close>

type_synonym downloader = "filesystem \<Rightarrow> string \<Rightarrow> error option \<times> filesystem"

type_synonym images = "real list list list"

type_synonym dataset = "images \<times> nat list \<times> images \<times> nat list \<times> nat list list"

section \<open>Dataset loader\<close>

definition not_found_msg :: "string \<Rightarrow> string" where
  "not_found_msg emnist_folder_path =
     ''Folder '' @ emnist_folder_path @ '' or file '' @ EMNIST_FILENAME @
     '' does not exist and download is deactivated''"

text \<open>Lines 75 to 92 of \<open>load_emnist\<close>: parse, convert, reshape, return the five values.\<close>

definition parse_emnist :: "filesystem \<Rightarrow> string \<Rightarrow> error + dataset" where
  "parse_emnist d filepath =
     (case loadmat d filepath of
        Inl e \<Rightarrow> Inl e
      | Inr raw_emnist_data \<Rightarrow>
          (case reshape_28_28 (astype_float32 (train_images raw_emnist_data)) of
             Inl e \<Rightarrow> Inl e
           | Inr x_train \<Rightarrow>
               (case reshape_28_28 (astype_float32 (test_images raw_emnist_data)) of
                  Inl e \<Rightarrow> Inl e
                | Inr x_test \<Rightarrow>
                    Inr (x_train, train_labels raw_emnist_data,
                         x_test, test_labels raw_emnist_data,
                         mapping_table raw_emnist_data))))"

text \<open>\<open>load_emnist\<close> returns its result (or the exception) and the file system it leaves.\<close>

definition load_emnist ::
  "downloader \<Rightarrow> filesystem \<Rightarrow> string \<Rightarrow> bool \<Rightarrow> (error + dataset) \<times> filesystem" where
  "load_emnist download_emnist d emnist_folder_path download =
     (let filepath = path_join emnist_folder_path EMNIST_FILENAME in
      if \<not> (isdir d emnist_folder_path \<and> isfile d filepath) then
        (if download then
           (case download_emnist d emnist_folder_path of
              (Some e, d') \<Rightarrow> (Inl e, d')
            | (None, d') \<Rightarrow> (parse_emnist d' filepath, d'))
         else (Inl (FileNotFoundError (not_found_msg emnist_folder_path)), d))
      else (parse_emnist d filepath, d))"

section \<open>The environment of a run\<close>

text \<open>
  What the module sends to the service: the JSON body \<open>{"instances": rows}\<close> of the HTTP
  protocol, or the tensor handed to \<open>remote.execute\<close>, of shape \<open>(1, 784)\<close> in the evaluator
  and \<open>(B, 1, 784)\<close> in the throughput driver.
\<close>

datatype payload =
    Json "real list list"
  | Tensor2 "real list list"
  | Tensor3 "real list list list"

datatype event =
    ShowImg "real list list"
  | PrintLabel char
  | PrintPredicted char
  | PrintAccuracy nat real

text \<open>
  The collaborators of a run. \<open>clock env k\<close> is what the \<open>k\<close>-th call of \<open>time.time()\<close>
  returns. \<open>service env url k p\<close> is the answer to the \<open>k\<close>-th request of the run, sent to
  \<open>url\<close> with payload \<open>p\<close>: the score array (the \<open>predictions\<close> field of the JSON response,
  or the tensor \<open>remote.execute\<close> returns), or the exception the call raises. \<open>seed_state\<close>
  and \<open>permutation\<close> are numpy's generator: the state \<open>np.random.seed\<close> installs, and a
  random permutation of \<open>range(n)\<close> drawn from a state with the state it leaves.

  A float is modelled by the real number it denotes. Where a rounding decides the result (the
  latency of line 235 truncates a rounded product), the interpreter's binary64 operations are
  parameters as well: \<open>float_sub env a b\<close>, \<open>float_mul env a b\<close> and \<open>float_div env a b\<close>
  are the floats Python computes for \<open>a - b\<close>, \<open>a * b\<close> and \<open>a / b\<close>.
\<close>

record 'g env =
  clock :: "nat \<Rightarrow> real"
  service :: "string \<Rightarrow> nat \<Rightarrow> payload \<Rightarrow> error + real list list"
  seed_state :: "int \<Rightarrow> 'g"
  permutation :: "'g \<Rightarrow> nat \<Rightarrow> nat list \<times> 'g"
  download_emnist :: downloader
  float_sub :: "real \<Rightarrow> real \<Rightarrow> real"
  float_mul :: "real \<Rightarrow> real \<Rightarrow> real"
  float_div :: "real \<Rightarrow> real \<Rightarrow> real"

text \<open>
  The state a run changes: the file system, numpy's global generator, the number of clock
  readings taken, the requests sent so far and what has been displayed or printed.
\<close>

record 'g world =
  disk :: filesystem
  rng :: 'g
  ticks :: nat
  requests :: "payload list"
  printed :: "event list"

section \<open>Python and numpy primitives\<close>

text \<open>\<open>int(x)\<close> of a float truncates toward zero.\<close>

definition py_int :: "real \<Rightarrow> int" where
  "py_int x = (if 0 \<le> x then \<lfloor>x\<rfloor> else \<lceil>x\<rceil>)"

text \<open>\<open>a / b\<close> of Python numbers raises on a zero divisor.\<close>

definition py_truediv :: "real \<Rightarrow> real \<Rightarrow> error + real" where
  "py_truediv a b = (if b = 0 then Inl ZeroDivisionError else Inr (a / b))"

text \<open>\<open>xs[i]\<close> for a non-negative index.\<close>

definition get_item :: "'a list \<Rightarrow> nat \<Rightarrow> error + 'a" where
  "get_item xs i = (if i < length xs then Inr (xs ! i) else Inl IndexError)"

text \<open>\<open>xs[a:b]\<close>: negative bounds count from the end and every bound is clipped.\<close>

definition py_slice :: "'a list \<Rightarrow> int \<Rightarrow> int \<Rightarrow> 'a list" where
  "py_slice xs a b =
     (let n = int (length xs);
          lo = (if a < 0 then max (a + n) 0 else min a n);
          hi = (if b < 0 then max (b + n) 0 else min b n)
      in take (nat (hi - lo)) (drop (nat lo) xs))"

text \<open>
  \<open>np.argmax\<close> of the flattened scores: a scan that keeps the position of the largest value
  seen and replaces it only by a strictly larger one; an empty array raises ValueError.
\<close>

fun argmax_scan :: "real list \<Rightarrow> nat \<Rightarrow> nat \<Rightarrow> real \<Rightarrow> nat" where
  "argmax_scan [] i best v = best"
| "argmax_scan (x # xs) i best v =
     (if v < x then argmax_scan xs (Suc i) i x else argmax_scan xs (Suc i) best v)"

definition np_argmax :: "real list list \<Rightarrow> error + nat" where
  "np_argmax scores =
     (case concat scores of
        [] \<Rightarrow> Inl ValueError
      | x # xs \<Rightarrow> Inr (argmax_scan xs 1 0 x))"

text \<open>\<open>img.reshape(1, 784) / 255\<close>: the rows of the image one after the other, scaled.\<close>

definition flatten_scale :: "real list list \<Rightarrow> error + real list list" where
  "flatten_scale img =
     (if length (concat img) = 784 then Inr [map (\<lambda>v. v / 255) (concat img)]
      else Inl ValueError)"

section \<open>Single-query evaluator\<close>

definition select_split :: "string \<Rightarrow> dataset \<Rightarrow> images \<times> nat list" where
  "select_split dataset ds =
     (case ds of (x_train, y_train, x_test, y_test, _) \<Rightarrow>
        if dataset = ''train'' then (x_train, y_train) else (x_test, y_test))"

text \<open>\<open>show_img\<close>: what it displays and prints, or the exception of a failed lookup.\<close>

definition show_img ::
  "nat \<Rightarrow> dataset \<Rightarrow> (nat \<times> char) list \<Rightarrow> string \<Rightarrow> error + event list" where
  "show_img idx ds mapping mode =
     (case ds of (x_train, y_train, x_test, y_test, _) \<Rightarrow>
        (case get_item (if mode = ''train'' then x_train else x_test) idx of
           Inl e \<Rightarrow> Inl e
         | Inr img \<Rightarrow>
             (case get_item (if mode = ''train'' then y_train else y_test) idx of
                Inl e \<Rightarrow> Inl e
              | Inr y \<Rightarrow>
                  (case map_of mapping y of
                     None \<Rightarrow> Inl KeyError
                   | Some label \<Rightarrow> Inr [ShowImg img, PrintLabel label]))))"

text \<open>
  Lines 216 to 219: \<open>np.random.seed(seed)\<close> accepts a seed from 0 to \<open>2^32 - 1\<close> and replaces
  the global generator; \<open>np.random.choice(np.arange(n), n_examples, replace=False)\<close> refuses
  an empty population unless no sample is taken, refuses a sample larger than the population
  and returns the first \<open>n_examples\<close> entries of a permutation of the population.
\<close>

definition sample_indices ::
  "'g env \<Rightarrow> 'g world \<Rightarrow> int \<Rightarrow> nat \<Rightarrow> nat \<Rightarrow> error + nat list \<times> 'g world" where
  "sample_indices env w seed n_pop n_examples =
     (if seed < 0 \<or> 2 ^ 32 \<le> seed then Inl ValueError
      else if n_pop = 0 \<and> n_examples \<noteq> 0 then Inl ValueError
      else if n_pop < n_examples then Inl ValueError
      else (case permutation env (seed_state env seed) n_pop of
              (p, g') \<Rightarrow> Inr (take n_examples p, w\<lparr>rng := g'\<rparr>)))"

text \<open>The request of either protocol for one flattened image (lines 224 to 233).\<close>

definition query :: "'g env \<Rightarrow> bool \<Rightarrow> string \<Rightarrow> nat \<Rightarrow> real list list \<Rightarrow> error + real list list" where
  "query env use_graphpipe request_url k test_img_flatten =
     (if \<not> use_graphpipe then service env request_url k (Json test_img_flatten)
      else service env request_url k (Tensor2 test_img_flatten))"

text \<open>
  Line 235, \<open>int((time.time() - start) * 1000000)/1000\<close>: the latency recorded for a call
  that started at the reading \<open>start\<close> and ended at the reading \<open>stop\<close>. The difference and
  the product are floats, \<open>int\<close> truncates the product, and the integer is divided by 1000
  into a float.
\<close>

definition latency_ms :: "'g env \<Rightarrow> real \<Rightarrow> real \<Rightarrow> real" where
  "latency_ms env start stop =
     float_div env
       (real_of_int (py_int (float_mul env (float_sub env stop start) 1000000))) 1000"

text \<open>What the loop prints for sample \<open>idx\<close> of the enumeration (lines 240 to 243).\<close>

definition print_example ::
  "int \<Rightarrow> nat \<Rightarrow> nat \<Rightarrow> nat \<Rightarrow> dataset \<Rightarrow> (nat \<times> char) list \<Rightarrow> string \<Rightarrow> error + event list" where
  "print_example n_print_examples idx test_img_idx test_img_class_pred ds mapping dataset =
     (if int idx < n_print_examples then
        (case show_img test_img_idx ds mapping dataset of
           Inl e \<Rightarrow> Inl e
         | Inr evs \<Rightarrow>
             (case map_of mapping test_img_class_pred of
                None \<Rightarrow> Inl KeyError
              | Some c \<Rightarrow> Inr (evs @ [PrintPredicted c])))
      else Inr [])"

text \<open>
  The loop over \<open>enumerate(eval_img_indices)\<close>, from position \<open>idx\<close>, with the accumulators
  \<open>acc\<close> and \<open>durations\<close>.
\<close>

fun eval_loop ::
  "'g env \<Rightarrow> bool \<Rightarrow> string \<Rightarrow> string \<Rightarrow> int \<Rightarrow> dataset \<Rightarrow> (nat \<times> char) list \<Rightarrow>
   nat \<Rightarrow> nat list \<Rightarrow> nat \<Rightarrow> real list \<Rightarrow> 'g world \<Rightarrow> error + nat \<times> real list \<times> 'g world" where
  "eval_loop env use_graphpipe request_url dataset n_print_examples ds mapping
     idx [] acc durations w = Inr (acc, durations, w)"
| "eval_loop env use_graphpipe request_url dataset n_print_examples ds mapping
     idx (test_img_idx # rest) acc durations w =
     (case get_item (fst (select_split dataset ds)) test_img_idx of
        Inl e \<Rightarrow> Inl e
      | Inr img \<Rightarrow>
     (case flatten_scale img of
        Inl e \<Rightarrow> Inl e
      | Inr test_img_flatten \<Rightarrow>
     (case query env use_graphpipe request_url (length (requests w)) test_img_flatten of
        Inl e \<Rightarrow> Inl e
      | Inr test_img_softmax_pred \<Rightarrow>
     (case np_argmax test_img_softmax_pred of
        Inl e \<Rightarrow> Inl e
      | Inr test_img_class_pred \<Rightarrow>
     (case get_item (snd (select_split dataset ds)) test_img_idx of
        Inl e \<Rightarrow> Inl e
      | Inr y \<Rightarrow>
     (case print_example n_print_examples idx test_img_idx test_img_class_pred ds mapping dataset of
        Inl e \<Rightarrow> Inl e
      | Inr evs \<Rightarrow>
          eval_loop env use_graphpipe request_url dataset n_print_examples ds mapping
            (Suc idx) rest
            (acc + (if test_img_class_pred = y then 1 else 0))
            (durations @ [latency_ms env (clock env (ticks w)) (clock env (Suc (ticks w)))])
            (w\<lparr>ticks := ticks w + 2,
               requests := requests w @
                 [if use_graphpipe then Tensor2 test_img_flatten else Json test_img_flatten],
               printed := printed w @ evs\<rparr>)))))))"

text \<open>
  \<open>eval_serving_performance\<close>: the durations and the world it leaves, or the exception. The
  accumulator is still the Python integer 0 when no sample was taken, so that the final
  division raises for \<open>n_examples = 0\<close>.
\<close>

definition eval_serving_performance ::
  "'g env \<Rightarrow> 'g world \<Rightarrow> nat \<Rightarrow> int \<Rightarrow> string \<Rightarrow> int \<Rightarrow> string \<Rightarrow> bool \<Rightarrow> string \<Rightarrow>
   error + real list \<times> 'g world" where
  "eval_serving_performance env w n_examples n_print_examples request_url seed dataset
     use_graphpipe emnist_folder_path =
     (case fst (load_emnist (download_emnist env) (disk w) emnist_folder_path False) of
        Inl e \<Rightarrow> Inl e
      | Inr ds \<Rightarrow>
     (case sample_indices env w seed (length (fst (select_split dataset ds))) n_examples of
        Inl e \<Rightarrow> Inl e
      | Inr (eval_img_indices, w1) \<Rightarrow>
     (case eval_loop env use_graphpipe request_url dataset n_print_examples ds
             get_emnist_mapping 0 eval_img_indices 0 [] w1 of
        Inl e \<Rightarrow> Inl e
      | Inr (acc, durations, w2) \<Rightarrow>
     (case py_truediv (real acc) (real n_examples) of
        Inl e \<Rightarrow> Inl e
      | Inr accuracy \<Rightarrow>
          Inr (durations, w2\<lparr>printed := printed w2 @ [PrintAccuracy n_examples accuracy]\<rparr>)))))"

section \<open>Throughput driver\<close>

text \<open>\<open>data.reshape(-1, 1, 28 * 28) / 255\<close> of an array of shape \<open>(N, 28, 28)\<close>.\<close>

definition reshape_scale :: "images \<Rightarrow> real list list list" where
  "reshape_scale x = map (\<lambda>img. [map (\<lambda>v. v / 255) (concat img)]) x"

text \<open>
  The request of either protocol for a batch of shape \<open>(B, 1, 784)\<close>: the HTTP protocol sends
  \<open>batch.reshape(-1, 28 * 28)\<close> as JSON, the other one the batch as it is.
\<close>

definition batch_payload :: "bool \<Rightarrow> real list list list \<Rightarrow> payload" where
  "batch_payload use_graphpipe batch = (if \<not> use_graphpipe then Json (concat batch) else Tensor3 batch)"

text \<open>The number of examples a payload carries (its first dimension).\<close>

fun payload_size :: "payload \<Rightarrow> nat" where
  "payload_size (Json r) = length r"
| "payload_size (Tensor2 r) = length r"
| "payload_size (Tensor3 r) = length r"

definition examples_sent :: "'g world \<Rightarrow> nat" where
  "examples_sent w = sum_list (map payload_size (requests w))"

text \<open>
  The loop \<open>while time.time() <= end_time\<close> of either protocol, with the counter \<open>num_reqs\<close>.
  It need not end: the result is \<open>None\<close> when the clock never passes \<open>end_time\<close>.
\<close>

partial_function (option) throughput_loop ::
  "'g env \<Rightarrow> bool \<Rightarrow> string \<Rightarrow> real list list list \<Rightarrow> real \<Rightarrow> int \<Rightarrow> int \<Rightarrow> 'g world \<Rightarrow>
   (error + int \<times> 'g world) option" where
  "throughput_loop env use_graphpipe request_url data end_time batch_size num_reqs w =
     (if clock env (ticks w) \<le> end_time then
        (case service env request_url (length (requests w))
                (batch_payload use_graphpipe (py_slice data num_reqs (num_reqs + batch_size))) of
           Inl e \<Rightarrow> Some (Inl e)
         | Inr _ \<Rightarrow>
             throughput_loop env use_graphpipe request_url data end_time batch_size
               (num_reqs + batch_size)
               (w\<lparr>ticks := Suc (ticks w),
                  requests := requests w @
                    [batch_payload use_graphpipe (py_slice data num_reqs (num_reqs + batch_size))]\<rparr>))
      else Some (Inr (num_reqs, w\<lparr>ticks := Suc (ticks w)\<rparr>)))"

declare throughput_loop.simps [code]

text \<open>
  \<open>eval_throughput\<close>: \<open>None\<close> when the loop does not end, else the pair
  \<open>(num_reqs, reqs_per_second)\<close> with the world the run leaves, or the exception.
\<close>

definition eval_throughput ::
  "'g env \<Rightarrow> 'g world \<Rightarrow> real \<Rightarrow> string \<Rightarrow> int \<Rightarrow> string \<Rightarrow> bool \<Rightarrow> string \<Rightarrow>
   (error + (int \<times> real) \<times> 'g world) option" where
  "eval_throughput env w duration request_url batch_size dataset use_graphpipe emnist_folder_path =
     (case fst (load_emnist (download_emnist env) (disk w) emnist_folder_path False) of
        Inl e \<Rightarrow> Some (Inl e)
      | Inr (x_train, _, x_test, _, _) \<Rightarrow>
          (let data = reshape_scale (if dataset = ''train'' then x_train else x_test);
               end_time = clock env (ticks w) + duration
           in case throughput_loop env use_graphpipe request_url data end_time batch_size 0
                     (w\<lparr>ticks := Suc (ticks w)\<rparr>) of
                None \<Rightarrow> None
              | Some (Inl e) \<Rightarrow> Some (Inl e)
              | Some (Inr (num_reqs, w')) \<Rightarrow>
                  (case py_truediv (real_of_int num_reqs) duration of
                     Inl e \<Rightarrow> Some (Inl e)
                   | Inr reqs_per_second \<Rightarrow> Some (Inr ((num_reqs, reqs_per_second), w')))))"

section \<open>Notions of the specification\<close>

text \<open>
  "The index of the maximum score, ties resolved by the lowest index": position \<open>k\<close> of
  \<open>xs\<close> holds a value no other position exceeds, and every earlier position holds a
  strictly smaller one.
\<close>

definition first_max_index :: "real list \<Rightarrow> nat \<Rightarrow> bool" where
  "first_max_index xs k =
     (k < length xs \<and> list_all (\<lambda>j. xs ! j \<le> xs ! k) [0..<length xs]
      \<and> list_all (\<lambda>j. xs ! j < xs ! k) [0..<k])"

text \<open>
  The class the evaluator predicts for an image sent as request number \<open>k\<close>: the image is
  flattened and scaled, the service is asked, and the answer goes through \<open>np.argmax\<close>.
\<close>

definition predicted_class ::
  "'g env \<Rightarrow> bool \<Rightarrow> string \<Rightarrow> nat \<Rightarrow> real list list \<Rightarrow> error + nat" where
  "predicted_class env use_graphpipe request_url k img =
     (case flatten_scale img of
        Inl e \<Rightarrow> Inl e
      | Inr test_img_flatten \<Rightarrow>
          (case query env use_graphpipe request_url k test_img_flatten of
             Inl e \<Rightarrow> Inl e
           | Inr test_img_softmax_pred \<Rightarrow> np_argmax test_img_softmax_pred))"

text \<open>
  The number of samples, among those drawn in the order \<open>ixs\<close> and sent as the requests
  \<open>k0, k0 + 1, ...\<close>, whose predicted class equals the ground-truth label.
\<close>

definition count_correct ::
  "'g env \<Rightarrow> bool \<Rightarrow> string \<Rightarrow> nat \<Rightarrow> images \<Rightarrow> nat list \<Rightarrow> nat list \<Rightarrow> nat" where
  "count_correct env use_graphpipe request_url k0 x_eval y_eval ixs =
     length (filter (\<lambda>p. predicted_class env use_graphpipe request_url (k0 + p) (x_eval ! (ixs ! p))
                            = Inr (y_eval ! (ixs ! p)))
               [0..<length ixs])"

text \<open>What numpy promises of \<open>permutation\<close>: a rearrangement of \<open>0, ..., n - 1\<close>.\<close>

definition permutes_range :: "'g env \<Rightarrow> bool" where
  "permutes_range env = (\<forall>g n. mset (fst (permutation env g n)) = mset [0..<n])"

section \<open>Concrete inputs\<close>

text \<open>
  A row of 784 pixels, all dark but the one at flat position 1. Read by columns the bright
  pixel belongs to row 1, column 0 of the image; read by rows, to row 0, column 1.
\<close>

definition bright_pixel_row :: "nat list" where
  "bright_pixel_row = (replicate 784 0)[1 := 255]"

text \<open>
  An archive with a single training image, which numpy reports as C-contiguous, and two test
  images in a Fortran-ordered array.
\<close>

definition small_archive :: archive where
  "small_archive =
     \<lparr>train_images = \<lparr>rows = [bright_pixel_row], isfortran = False\<rparr>,
      train_labels = [7],
      test_images = \<lparr>rows = [bright_pixel_row, replicate 784 0], isfortran = True\<rparr>,
      test_labels = [1, 3],
      mapping_table = [[0, 48], [1, 49]]\<rparr>"

text \<open>A download that fails at once and changes nothing.\<close>

definition no_network :: downloader where
  "no_network d p = (Some ExternalError, d)"

text \<open>The archive in the folder \<open>emnist_data/\<close>, and the archive in the working directory.\<close>

definition disk_data :: filesystem where
  "disk_data = \<lparr>dirs = [''emnist_data/''],
                files = [(''emnist_data/emnist-byclass.mat'', MatFile small_archive)]\<rparr>"

definition disk_cwd :: filesystem where
  "disk_cwd = \<lparr>dirs = [''.''], files = [(''emnist-byclass.mat'', MatFile small_archive)]\<rparr>"

text \<open>
  A service that scores class 1 and class 3 equally high, a clock that advances a quarter of a
  second per reading, and a generator whose permutation reverses the range. Every difference,
  product and quotient that line 235 forms from these readings (a quarter, 250000, 250) is a
  binary64 number, so that Python's operations give the exact results there.
\<close>

definition demo_env :: "nat env" where
  "demo_env = \<lparr>clock = (\<lambda>k. real k / 4),
                service = (\<lambda>url k p. Inr [[0, 1, 0, 1]]),
                seed_state = nat,
                permutation = (\<lambda>g n. (rev [0..<n], Suc g)),
                download_emnist = no_network,
                float_sub = (\<lambda>a b. a - b),
                float_mul = (\<lambda>a b. a * b),
                float_div = (\<lambda>a b. a / b)\<rparr>"

text \<open>
  The same with a clock that is set back \<open>2^-21\<close> seconds, about half a microsecond, after its
  first reading. The readings \<open>1\<close> and \<open>1 - 2^-21\<close>, their difference \<open>- 2^-21\<close> and the
  product \<open>- 15625 / 32768\<close> are binary64 numbers, so that the operations are exact here too.
\<close>

definition backward_env :: "nat env" where
  "backward_env = demo_env\<lparr>clock := (\<lambda>k. if k = 0 then 1 else 1 - 1 / 2097152)\<rparr>"

definition demo_world :: "nat world" where
  "demo_world = \<lparr>disk = disk_data, rng = 0, ticks = 0, requests = [], printed = []\<rparr>"

section \<open>The dataset loader\<close>

lemma reshape_28_28_Inr:
  assumes "reshape_28_28 a = Inr b"
  shows "length b = length (rows a)"
    and "n < length b \<Longrightarrow> length (b ! n) = 28"
    and "n < length b \<Longrightarrow> i < 28 \<Longrightarrow> length (b ! n ! i) = 28"
    and "n < length b \<Longrightarrow> i < 28 \<Longrightarrow> j < 28 \<Longrightarrow>
         b ! n ! i ! j = rows a ! n ! (if isfortran a then i + 28 * j else 28 * i + j)"
  using assms by (auto simp: reshape_28_28_def split: if_splits)

lemma parse_emnist_Inr:
  assumes "parse_emnist d p = Inr (x_train, y_train, x_test, y_test, mapping)"
  shows "\<exists>raw. loadmat d p = Inr raw
           \<and> reshape_28_28 (astype_float32 (train_images raw)) = Inr x_train
           \<and> reshape_28_28 (astype_float32 (test_images raw)) = Inr x_test
           \<and> y_train = train_labels raw \<and> y_test = test_labels raw
           \<and> mapping = mapping_table raw"
  using assms by (auto simp: parse_emnist_def split: sum.splits)

lemma load_emnist_Inr:
  assumes "load_emnist dl d folder download = (Inr ds, d')"
  shows "parse_emnist d' (path_join folder EMNIST_FILENAME) = Inr ds"
  using assms
  by (auto simp: load_emnist_def Let_def split: if_splits prod.splits option.splits)

lemma astype_rows: "n < length (rows a) \<Longrightarrow> k < length (rows a ! n) \<Longrightarrow>
   rows (astype_float32 a) ! n ! k = real (rows a ! n ! k)"
  by (simp add: astype_float32_def)

lemma reshape_row_length:
  "reshape_28_28 a = Inr b \<Longrightarrow> n < length (rows a) \<Longrightarrow> length (rows a ! n) = 784"
  by (auto simp: reshape_28_28_def list_all_length split: if_splits)

lemma reshape_astype_pixel:
  assumes r: "reshape_28_28 (astype_float32 a) = Inr b"
    and n: "n < length b" and i: "i < 28" and j: "j < 28"
  shows "b ! n ! i ! j = real (rows a ! n ! (if isfortran a then i + 28 * j else 28 * i + j))"
proof -
  have len: "length b = length (rows a)"
    using reshape_28_28_Inr(1) [OF r] by (simp add: astype_float32_def)
  have rl: "length (rows a ! n) = 784"
    using reshape_row_length [OF r, of n] n len by (simp add: astype_float32_def)
  have k: "(if isfortran a then i + 28 * j else 28 * i + j) < 784"
    using i j by auto
  have "b ! n ! i ! j = rows (astype_float32 a) ! n ! (if isfortran a then i + 28 * j else 28 * i + j)"
    using reshape_28_28_Inr(4) [OF r n i j] by (simp add: astype_float32_def)
  also have "\<dots> = real (rows a ! n ! (if isfortran a then i + 28 * j else 28 * i + j))"
    using astype_rows [of n a] n len rl k by simp
  finally show ?thesis .
qed

lemmas loader_defs = load_emnist_def isdir_def isfile_def path_join_def EMNIST_FILENAME_def
  parse_emnist_def loadmat_def reshape_28_28_def astype_float32_def not_found_msg_def

lemma load_small:
  "\<exists>x_train x_test. load_emnist no_network disk_data ''emnist_data/'' False =
      (Inr (x_train, [7], x_test, [1, 3], [[0, 48], [1, 49]]), disk_data)"
  by (simp add: loader_defs disk_data_def small_archive_def bright_pixel_row_def)

text \<open>
  C1, as amended: whenever \<open>load_emnist\<close> returns, each split has one image of 28 rows of 28
  pixels per row of the archive's pixel array, and the order in which a row's 784 pixels are
  laid into its image is the one \<open>order='A'\<close> selects from the array's memory layout: by
  columns (\<open>image[i][j] = row[i + 28 * j]\<close>) when numpy reports the array as Fortran ordered,
  by rows (\<open>image[i][j] = row[28 * i + j]\<close>) otherwise. The rule is the same for the training
  and the test split.
\<close>

theorem load_emnist_reshape_order:
  assumes "load_emnist dl d folder download = (Inr (x_train, y_train, x_test, y_test, mapping), d')"
  shows "\<exists>raw. loadmat d' (path_join folder EMNIST_FILENAME) = Inr raw
     \<and> length x_train = length (rows (train_images raw))
     \<and> length x_test = length (rows (test_images raw))
     \<and> (\<forall>n i j. n < length x_train \<and> i < 28 \<and> j < 28 \<longrightarrow>
           length (x_train ! n) = 28 \<and> length (x_train ! n ! i) = 28 \<and>
           x_train ! n ! i ! j =
             real (rows (train_images raw) ! n !
                    (if isfortran (train_images raw) then i + 28 * j else 28 * i + j)))
     \<and> (\<forall>n i j. n < length x_test \<and> i < 28 \<and> j < 28 \<longrightarrow>
           length (x_test ! n) = 28 \<and> length (x_test ! n ! i) = 28 \<and>
           x_test ! n ! i ! j =
             real (rows (test_images raw) ! n !
                    (if isfortran (test_images raw) then i + 28 * j else 28 * i + j)))"
proof -
  from load_emnist_Inr [OF assms] parse_emnist_Inr
  obtain raw where raw: "loadmat d' (path_join folder EMNIST_FILENAME) = Inr raw"
    and tr: "reshape_28_28 (astype_float32 (train_images raw)) = Inr x_train"
    and te: "reshape_28_28 (astype_float32 (test_images raw)) = Inr x_test"
    by blast
  have ltr: "length x_train = length (rows (train_images raw))"
    using reshape_28_28_Inr(1) [OF tr] by (simp add: astype_float32_def)
  have lte: "length x_test = length (rows (test_images raw))"
    using reshape_28_28_Inr(1) [OF te] by (simp add: astype_float32_def)
  show ?thesis
    using raw ltr lte reshape_28_28_Inr(2,3) [OF tr] reshape_28_28_Inr(2,3) [OF te]
      reshape_astype_pixel [OF tr] reshape_astype_pixel [OF te]
    by (intro exI [of _ raw]) simp
qed

theorem load_emnist_reshape_order_witness:
  "(case load_emnist no_network disk_data ''emnist_data/'' False of
      (Inl e, d') \<Rightarrow> False
    | (Inr (x_train, y_train, x_test, y_test, mapping), d') \<Rightarrow>
        length x_train = 1 \<and> length x_test = 2 \<and>
        x_train ! 0 ! 0 ! 1 = 255 \<and> x_test ! 0 ! 1 ! 0 = 255)"
proof -
  from load_small obtain x_train x_test where
    eq: "load_emnist no_network disk_data ''emnist_data/'' False =
           (Inr (x_train, [7], x_test, [1, 3], [[0, 48], [1, 49]]), disk_data)"
    by blast
  have lm: "loadmat disk_data (path_join ''emnist_data/'' EMNIST_FILENAME) = Inr small_archive"
    by (simp add: loader_defs disk_data_def)
  from load_emnist_reshape_order [OF eq] lm
  have l1: "length x_train = length (rows (train_images small_archive))"
    and l2: "length x_test = length (rows (test_images small_archive))"
    and p1: "\<forall>n i j. n < length x_train \<and> i < 28 \<and> j < 28 \<longrightarrow>
           length (x_train ! n) = 28 \<and> length (x_train ! n ! i) = 28 \<and>
           x_train ! n ! i ! j =
             real (rows (train_images small_archive) ! n !
                    (if isfortran (train_images small_archive) then i + 28 * j else 28 * i + j))"
    and p2: "\<forall>n i j. n < length x_test \<and> i < 28 \<and> j < 28 \<longrightarrow>
           length (x_test ! n) = 28 \<and> length (x_test ! n ! i) = 28 \<and>
           x_test ! n ! i ! j =
             real (rows (test_images small_archive) ! n !
                    (if isfortran (test_images small_archive) then i + 28 * j else 28 * i + j))"
    by auto
  have n1: "length x_train = 1" and n2: "length x_test = 2"
    using l1 l2 by (simp_all add: small_archive_def)
  have a: "x_train ! 0 ! 0 ! 1 = 255"
    using p1 [rule_format, of 0 0 1] n1 by (simp add: small_archive_def bright_pixel_row_def)
  have b: "x_test ! 0 ! 1 ! 0 = 255"
    using p2 [rule_format, of 0 1 0] n2 by (simp add: small_archive_def bright_pixel_row_def)
  show ?thesis using eq n1 n2 a b by simp
qed

text \<open>
  The claim as stated fails: a split whose array numpy does not report as Fortran ordered (a
  single-image split is both C- and Fortran-contiguous) is reshaped by rows. The bright pixel
  at flat position 1 would sit at row 1, column 0 under a traversal by columns; the loader
  leaves that pixel dark.
\<close>

theorem load_emnist_single_image_row_major:
  "\<not> isl (fst (load_emnist no_network disk_data ''emnist_data/'' False))
   \<and> fst (projr (fst (load_emnist no_network disk_data ''emnist_data/'' False))) ! 0 ! 1 ! 0 = 0
   \<and> real (rows (train_images small_archive) ! 0 ! (1 + 28 * 0)) = 255"
  by (simp add: loader_defs disk_data_def small_archive_def bright_pixel_row_def)

text \<open>
  C2, as amended: when the folder is no directory or the matrix file is absent, and download is
  disallowed, \<open>load_emnist\<close> raises FileNotFoundError with a message naming the folder and the
  file name, and leaves the file system as it was; when folder and file are present it parses
  without any download; when they are not and download is allowed it runs the download first
  and propagates its failure; and whenever it returns, the result holds the images of both
  splits (one per archive row), the archive's label arrays and its raw mapping table.
\<close>

theorem load_emnist_outcome:
  "(\<not> (isdir d folder \<and> isfile d (path_join folder EMNIST_FILENAME)) \<and> \<not> download \<longrightarrow>
      load_emnist dl d folder download =
        (Inl (FileNotFoundError (''Folder '' @ folder @
           '' or file emnist-byclass.mat does not exist and download is deactivated'')), d))
   \<and> (isdir d folder \<and> isfile d (path_join folder EMNIST_FILENAME) \<longrightarrow>
      load_emnist dl d folder download = (parse_emnist d (path_join folder EMNIST_FILENAME), d))
   \<and> (\<not> (isdir d folder \<and> isfile d (path_join folder EMNIST_FILENAME)) \<and> download \<longrightarrow>
      load_emnist dl d folder download =
        (case dl d folder of
           (Some e, d') \<Rightarrow> (Inl e, d')
         | (None, d') \<Rightarrow> (parse_emnist d' (path_join folder EMNIST_FILENAME), d')))
   \<and> (\<forall>x_train y_train x_test y_test mapping d'.
        load_emnist dl d folder download = (Inr (x_train, y_train, x_test, y_test, mapping), d') \<longrightarrow>
        (\<exists>raw. loadmat d' (path_join folder EMNIST_FILENAME) = Inr raw
           \<and> length x_train = length (rows (train_images raw)) \<and> y_train = train_labels raw
           \<and> length x_test = length (rows (test_images raw)) \<and> y_test = test_labels raw
           \<and> mapping = mapping_table raw))"
proof (intro conjI impI allI)
  assume "\<not> (isdir d folder \<and> isfile d (path_join folder EMNIST_FILENAME)) \<and> \<not> download"
  then show "load_emnist dl d folder download =
        (Inl (FileNotFoundError (''Folder '' @ folder @
           '' or file emnist-byclass.mat does not exist and download is deactivated'')), d)"
    by (simp add: load_emnist_def not_found_msg_def EMNIST_FILENAME_def)
next
  assume "isdir d folder \<and> isfile d (path_join folder EMNIST_FILENAME)"
  then show "load_emnist dl d folder download = (parse_emnist d (path_join folder EMNIST_FILENAME), d)"
    by (simp add: load_emnist_def)
next
  assume "\<not> (isdir d folder \<and> isfile d (path_join folder EMNIST_FILENAME)) \<and> download"
  then show "load_emnist dl d folder download =
        (case dl d folder of
           (Some e, d') \<Rightarrow> (Inl e, d')
         | (None, d') \<Rightarrow> (parse_emnist d' (path_join folder EMNIST_FILENAME), d'))"
    by (simp add: load_emnist_def)
next
  fix x_train y_train x_test y_test mapping d'
  assume eq: "load_emnist dl d folder download = (Inr (x_train, y_train, x_test, y_test, mapping), d')"
  from parse_emnist_Inr [OF load_emnist_Inr [OF eq]]
  obtain raw where raw: "loadmat d' (path_join folder EMNIST_FILENAME) = Inr raw"
    and tr: "reshape_28_28 (astype_float32 (train_images raw)) = Inr x_train"
    and te: "reshape_28_28 (astype_float32 (test_images raw)) = Inr x_test"
    and rest: "y_train = train_labels raw" "y_test = test_labels raw" "mapping = mapping_table raw"
    by blast
  show "\<exists>raw. loadmat d' (path_join folder EMNIST_FILENAME) = Inr raw
           \<and> length x_train = length (rows (train_images raw)) \<and> y_train = train_labels raw
           \<and> length x_test = length (rows (test_images raw)) \<and> y_test = test_labels raw
           \<and> mapping = mapping_table raw"
    using raw rest reshape_28_28_Inr(1) [OF tr] reshape_28_28_Inr(1) [OF te]
    by (intro exI [of _ raw]) (simp add: astype_float32_def)
qed

theorem load_emnist_outcome_witness:
  "\<not> isfile disk_cwd (path_join ''emnist_data/'' EMNIST_FILENAME)
   \<and> load_emnist no_network disk_cwd ''emnist_data/'' False =
       (Inl (FileNotFoundError
          ''Folder emnist_data/ or file emnist-byclass.mat does not exist and download is deactivated''),
        disk_cwd)
   \<and> isdir disk_data ''emnist_data/''
   \<and> isfile disk_data (path_join ''emnist_data/'' EMNIST_FILENAME)
   \<and> load_emnist no_network disk_data ''emnist_data/'' False =
       (parse_emnist disk_data (path_join ''emnist_data/'' EMNIST_FILENAME), disk_data)
   \<and> load_emnist no_network disk_cwd ''emnist_data/'' True = (Inl ExternalError, disk_cwd)
   \<and> (\<exists>x_train x_test.
         load_emnist no_network disk_data ''emnist_data/'' False =
           (Inr (x_train, train_labels small_archive, x_test, test_labels small_archive,
                 mapping_table small_archive), disk_data)
         \<and> length x_train = 1 \<and> length x_test = 2)"
proof -
  have a: "\<not> isfile disk_cwd (path_join ''emnist_data/'' EMNIST_FILENAME)"
    by (simp add: isfile_def path_join_def EMNIST_FILENAME_def disk_cwd_def)
  have b: "isdir disk_data ''emnist_data/'' \<and> isfile disk_data (path_join ''emnist_data/'' EMNIST_FILENAME)"
    by (simp add: isdir_def isfile_def path_join_def EMNIST_FILENAME_def disk_data_def)
  note t1 = load_emnist_outcome [of disk_cwd "''emnist_data/''" False no_network]
  note t2 = load_emnist_outcome [of disk_data "''emnist_data/''" False no_network]
  note t3 = load_emnist_outcome [of disk_cwd "''emnist_data/''" True no_network]
  have c1: "load_emnist no_network disk_cwd ''emnist_data/'' False =
       (Inl (FileNotFoundError
          ''Folder emnist_data/ or file emnist-byclass.mat does not exist and download is deactivated''),
        disk_cwd)"
    using t1 a by simp
  have c2: "load_emnist no_network disk_data ''emnist_data/'' False =
       (parse_emnist disk_data (path_join ''emnist_data/'' EMNIST_FILENAME), disk_data)"
    using t2 b by simp
  have c3: "load_emnist no_network disk_cwd ''emnist_data/'' True = (Inl ExternalError, disk_cwd)"
    using t3 a by (simp add: no_network_def)
  from load_small obtain x_train x_test where
    eq: "load_emnist no_network disk_data ''emnist_data/'' False =
           (Inr (x_train, [7], x_test, [1, 3], [[0, 48], [1, 49]]), disk_data)"
    by blast
  have lm: "loadmat disk_data (path_join ''emnist_data/'' EMNIST_FILENAME) = Inr small_archive"
    by (simp add: loader_defs disk_data_def)
  from t2 eq lm have "length x_train = 1 \<and> length x_test = 2"
    by (auto simp: small_archive_def)
  with eq have c4: "\<exists>x_train x_test.
         load_emnist no_network disk_data ''emnist_data/'' False =
           (Inr (x_train, train_labels small_archive, x_test, test_labels small_archive,
                 mapping_table small_archive), disk_data)
         \<and> length x_train = 1 \<and> length x_test = 2"
    by (auto simp: small_archive_def)
  from a b c1 c2 c3 c4 show ?thesis by blast
qed

text \<open>
  The claim as stated fails: with the empty folder path the file
  \<open>emnist-byclass.mat\<close> of the working directory is present, yet \<open>os.path.isdir('')\<close> is
  false and the loader raises; and with download allowed a failing download propagates
  instead of a result.
\<close>

theorem load_emnist_present_file_raises:
  "isfile disk_cwd (path_join [] EMNIST_FILENAME)
   \<and> load_emnist no_network disk_cwd [] False =
       (Inl (FileNotFoundError
          ''Folder  or file emnist-byclass.mat does not exist and download is deactivated''),
        disk_cwd)
   \<and> load_emnist no_network disk_cwd ''emnist_data/'' True = (Inl ExternalError, disk_cwd)"
  by (simp add: loader_defs disk_cwd_def no_network_def)

section \<open>The label mapper\<close>

lemma mapping_eval:
  "get_emnist_mapping =
     zip [0..<62] ''0123456789ABCDEFGHIJKLMNOPQRSTUVWXYZabcdefghijklmnopqrstuvwxyz''"
  by code_simp

lemma map_snd_mapping:
  "map snd get_emnist_mapping = ''0123456789ABCDEFGHIJKLMNOPQRSTUVWXYZabcdefghijklmnopqrstuvwxyz''"
  by (simp add: mapping_eval del: upt_Suc)

lemma map_fst_mapping: "map fst get_emnist_mapping = [0..<62]"
  by (simp add: mapping_eval del: upt_Suc)

lemma distinct_snd_same_key:
  "distinct (map snd xs) \<Longrightarrow> (a, v) \<in> set xs \<Longrightarrow> (b, v) \<in> set xs \<Longrightarrow> a = b"
  by (induction xs) force+

lemma inj_on_map_of_distinct_snd:
  assumes "distinct (map snd xs)"
  shows "inj_on (map_of xs) (dom (map_of xs))"
proof (rule inj_onI)
  fix a b
  assume a: "a \<in> dom (map_of xs)" and eq: "map_of xs a = map_of xs b"
  from a obtain v where va: "map_of xs a = Some v" by auto
  with eq have vb: "map_of xs b = Some v" by simp
  from va vb have "(a, v) \<in> set xs" "(b, v) \<in> set xs" by (auto dest: map_of_SomeD)
  with assms show "a = b" by (rule distinct_snd_same_key)
qed

text \<open>
  C3: \<open>get_emnist_mapping\<close> takes no input and reads no state; its result has exactly 62
  entries, with the keys 0 to 61 in order, maps them to the characters \<open>0-9\<close>, \<open>A-Z\<close>,
  \<open>a-z\<close> in that concatenation order, is injective on its keys, and sends 0, 9, 10, 35, 36
  and 61 to \<open>0\<close>, \<open>9\<close>, \<open>A\<close>, \<open>Z\<close>, \<open>a\<close> and \<open>z\<close>.
\<close>

theorem get_emnist_mapping_table:
  "length get_emnist_mapping = 62
   \<and> map fst get_emnist_mapping = [0..<62]
   \<and> map snd get_emnist_mapping =
       ''0123456789'' @ ''ABCDEFGHIJKLMNOPQRSTUVWXYZ'' @ ''abcdefghijklmnopqrstuvwxyz''
   \<and> dom (map_of get_emnist_mapping) = {0..<62}
   \<and> inj_on (map_of get_emnist_mapping) {0..<62}
   \<and> map_of get_emnist_mapping 0 = Some CHR ''0''
   \<and> map_of get_emnist_mapping 9 = Some CHR ''9''
   \<and> map_of get_emnist_mapping 10 = Some CHR ''A''
   \<and> map_of get_emnist_mapping 35 = Some CHR ''Z''
   \<and> map_of get_emnist_mapping 36 = Some CHR ''a''
   \<and> map_of get_emnist_mapping 61 = Some CHR ''z''"
proof -
  have len: "length get_emnist_mapping = 62"
    using arg_cong [OF map_fst_mapping, of length] by simp
  have vals: "map snd get_emnist_mapping =
       ''0123456789'' @ ''ABCDEFGHIJKLMNOPQRSTUVWXYZ'' @ ''abcdefghijklmnopqrstuvwxyz''"
    using map_snd_mapping by simp
  have d: "dom (map_of get_emnist_mapping) = {0..<62}"
    using arg_cong [OF map_fst_mapping, of set] by (simp add: dom_map_of_conv_image_fst)
  have "distinct (map snd get_emnist_mapping)"
    unfolding map_snd_mapping by simp
  then have inj: "inj_on (map_of get_emnist_mapping) {0..<62}"
    using inj_on_map_of_distinct_snd [of get_emnist_mapping] d by simp
  have pts: "map_of get_emnist_mapping 0 = Some CHR ''0''"
    "map_of get_emnist_mapping 9 = Some CHR ''9''"
    "map_of get_emnist_mapping 10 = Some CHR ''A''"
    "map_of get_emnist_mapping 35 = Some CHR ''Z''"
    "map_of get_emnist_mapping 36 = Some CHR ''a''"
    "map_of get_emnist_mapping 61 = Some CHR ''z''"
    by (simp_all add: mapping_eval upt_conv_Cons)
  from len map_fst_mapping vals d inj pts show ?thesis by blast
qed

section \<open>The single-query evaluator\<close>

lemma length_concat_grid:
  "length (concat (map (\<lambda>i. map (f i) [0..<m]) [0..<n])) = n * m"
  by (simp add: length_concat comp_def sum_list_triv)

lemma ceiling_backward: "\<lceil>- (15625 / 32768) :: real\<rceil> = 0"
  by (simp add: ceiling_eq_iff)

lemma floor_backward: "\<lfloor>- (15625 / 32768) :: real\<rfloor> = - 1"
  by (simp add: floor_eq_iff)

lemmas run_defs = eval_serving_performance_def loader_defs sample_indices_def select_split_def
  get_item_def flatten_scale_def query_def np_argmax_def latency_ms_def py_int_def
  print_example_def py_truediv_def show_img_def length_concat_grid

lemmas demo_defs = demo_env_def backward_env_def demo_world_def disk_data_def small_archive_def
  bright_pixel_row_def no_network_def

subsection \<open>The scan of \<open>np.argmax\<close>\<close>

lemma first_max_index_iff:
  "first_max_index xs k \<longleftrightarrow>
     k < length xs \<and> (\<forall>j<length xs. xs ! j \<le> xs ! k) \<and> (\<forall>j<k. xs ! j < xs ! k)"
  by (auto simp: first_max_index_def list_all_iff)

lemma argmax_scan_first_max:
  assumes "i = length ps" "best < length ps" "ps ! best = v"
    and "\<forall>j<length ps. ps ! j \<le> v" and "\<forall>j<best. ps ! j < v"
  shows "first_max_index (ps @ xs) (argmax_scan xs i best v)"
  using assms
proof (induction xs arbitrary: ps i best v)
  case Nil
  then show ?case by (simp add: first_max_index_iff)
next
  case (Cons x xs)
  show ?case
  proof (cases "v < x")
    case True
    have "first_max_index ((ps @ [x]) @ xs) (argmax_scan xs (Suc i) i x)"
    proof (rule Cons.IH)
      show "Suc i = length (ps @ [x])" using Cons.prems(1) by simp
      show "i < length (ps @ [x])" using Cons.prems(1) by simp
      show "(ps @ [x]) ! i = x" using Cons.prems(1) by simp
      show "\<forall>j<length (ps @ [x]). (ps @ [x]) ! j \<le> x"
        using Cons.prems(4) True by (auto simp: nth_append less_Suc_eq intro: order_trans less_imp_le)
      show "\<forall>j<i. (ps @ [x]) ! j < x"
        using Cons.prems(1,4) True by (auto simp: nth_append intro: le_less_trans)
    qed
    with True show ?thesis by simp
  next
    case False
    have "first_max_index ((ps @ [x]) @ xs) (argmax_scan xs (Suc i) best v)"
    proof (rule Cons.IH)
      show "Suc i = length (ps @ [x])" using Cons.prems(1) by simp
      show "best < length (ps @ [x])" using Cons.prems(2) by simp
      show "(ps @ [x]) ! best = v" using Cons.prems(2,3) by (simp add: nth_append)
      show "\<forall>j<length (ps @ [x]). (ps @ [x]) ! j \<le> v"
        using Cons.prems(4) False by (auto simp: nth_append less_Suc_eq)
      show "\<forall>j<best. (ps @ [x]) ! j < v"
        using Cons.prems(2,5) by (auto simp: nth_append)
    qed
    with False show ?thesis by simp
  qed
qed

lemma np_argmax_first_max:
  assumes "np_argmax scores = Inr k"
  shows "first_max_index (concat scores) k"
proof (cases "concat scores")
  case Nil
  with assms show ?thesis by (simp add: np_argmax_def)
next
  case (Cons x xs)
  with assms have k: "k = argmax_scan xs 1 0 x" by (simp add: np_argmax_def)
  have "first_max_index ([x] @ xs) (argmax_scan xs 1 0 x)"
    by (rule argmax_scan_first_max) simp_all
  with k Cons show ?thesis by simp
qed

subsection \<open>The loop\<close>

lemma count_correct_Nil: "count_correct env gp url k x y [] = 0"
  by (simp add: count_correct_def)

lemma count_correct_Cons:
  "count_correct env gp url k x y (i # rest) =
     (if predicted_class env gp url k (x ! i) = Inr (y ! i) then 1 else 0)
     + count_correct env gp url (Suc k) x y rest"
proof -
  have "[0..<Suc (length rest)] = 0 # map Suc [0..<length rest]"
    by (simp add: upt_conv_Cons map_Suc_upt del: upt_Suc)
  then show ?thesis
    by (simp add: count_correct_def filter_map comp_def del: upt_Suc)
qed

lemma eval_loop_Cons_Inr:
  assumes "eval_loop env gp url dataset np ds mapping idx (i # rest) acc durs w = Inr r"
  obtains img flat scores c yv evs where
    "get_item (fst (select_split dataset ds)) i = Inr img"
    "flatten_scale img = Inr flat"
    "query env gp url (length (requests w)) flat = Inr scores"
    "np_argmax scores = Inr c"
    "get_item (snd (select_split dataset ds)) i = Inr yv"
    "print_example np idx i c ds mapping dataset = Inr evs"
    "eval_loop env gp url dataset np ds mapping (Suc idx) rest
       (acc + (if c = yv then 1 else 0))
       (durs @ [latency_ms env (clock env (ticks w)) (clock env (Suc (ticks w)))])
       (w\<lparr>ticks := ticks w + 2,
          requests := requests w @ [if gp then Tensor2 flat else Json flat],
          printed := printed w @ evs\<rparr>) = Inr r"
  using assms by (auto split: sum.splits)

lemma eval_loop_Inr:
  assumes "eval_loop env gp url dataset np ds mapping idx ixs acc durs w = Inr (acc', durs', w')"
  shows "ticks w' = ticks w + 2 * length ixs
    \<and> length (requests w') = length (requests w) + length ixs
    \<and> durs' = durs @ map (\<lambda>p. latency_ms env (clock env (ticks w + 2 * p))
                                     (clock env (Suc (ticks w + 2 * p)))) [0..<length ixs]
    \<and> acc' = acc + count_correct env gp url (length (requests w))
                     (fst (select_split dataset ds)) (snd (select_split dataset ds)) ixs
    \<and> (\<exists>evs. printed w' = printed w @ evs)"
  using assms
proof (induction ixs arbitrary: idx acc durs w)
  case Nil
  then show ?case by (simp add: count_correct_Nil)
next
  case (Cons i rest)
  from Cons.prems obtain img flat scores c yv evs where
    x: "get_item (fst (select_split dataset ds)) i = Inr img"
    and f: "flatten_scale img = Inr flat"
    and q: "query env gp url (length (requests w)) flat = Inr scores"
    and a: "np_argmax scores = Inr c"
    and y: "get_item (snd (select_split dataset ds)) i = Inr yv"
    and rec: "eval_loop env gp url dataset np ds mapping (Suc idx) rest
       (acc + (if c = yv then 1 else 0))
       (durs @ [latency_ms env (clock env (ticks w)) (clock env (Suc (ticks w)))])
       (w\<lparr>ticks := ticks w + 2,
          requests := requests w @ [if gp then Tensor2 flat else Json flat],
          printed := printed w @ evs\<rparr>) = Inr (acc', durs', w')"
    by (rule eval_loop_Cons_Inr)
  have xi: "fst (select_split dataset ds) ! i = img"
    using x by (simp add: get_item_def split: if_splits)
  have yi: "snd (select_split dataset ds) ! i = yv"
    using y by (simp add: get_item_def split: if_splits)
  have pc: "predicted_class env gp url (length (requests w)) (fst (select_split dataset ds) ! i) = Inr c"
    using f q a xi by (simp add: predicted_class_def)
  have m: "map (\<lambda>p. latency_ms env (clock env (ticks w + 2 * p)) (clock env (Suc (ticks w + 2 * p))))
             [0..<Suc (length rest)] =
           latency_ms env (clock env (ticks w)) (clock env (Suc (ticks w))) #
           map (\<lambda>p. latency_ms env (clock env (ticks w + 2 + 2 * p)) (clock env (Suc (ticks w + 2 + 2 * p))))
             [0..<length rest]"
    by (simp add: map_upt_Suc del: upt_Suc)
  from Cons.IH [OF rec] show ?case
    using pc yi m by (auto simp: count_correct_Cons simp del: upt_Suc)
qed

subsection \<open>A run that returns\<close>

lemma sample_indices_Inr:
  assumes "sample_indices env w seed n_pop n = Inr (ixs, w1)"
  shows "ixs = take n (fst (permutation env (seed_state env seed) n_pop))"
    and "ticks w1 = ticks w" and "requests w1 = requests w" and "printed w1 = printed w"
    and "n \<le> n_pop" and "0 \<le> seed" and "seed < 2 ^ 32"
  using assms by (auto simp: sample_indices_def split: if_splits prod.splits)

lemma eval_serving_performance_Inr:
  assumes "eval_serving_performance env w n np url seed dataset gp folder = Inr (durations, w')"
  obtains ds ixs w1 acc w2 where
    "fst (load_emnist (download_emnist env) (disk w) folder False) = Inr ds"
    "sample_indices env w seed (length (fst (select_split dataset ds))) n = Inr (ixs, w1)"
    "eval_loop env gp url dataset np ds get_emnist_mapping 0 ixs 0 [] w1 = Inr (acc, durations, w2)"
    "n \<noteq> 0"
    "w' = w2\<lparr>printed := printed w2 @ [PrintAccuracy n (real acc / real n)]\<rparr>"
  using assms
  by (auto simp: eval_serving_performance_def py_truediv_def split: sum.splits prod.splits if_splits)

lemma permutes_range_demo: "permutes_range demo_env"
  by (simp add: permutes_range_def demo_env_def)

text \<open>
  C5: the indices the evaluator draws depend on the seed, on the size of the split and on
  \<open>n_examples\<close> only: two runs that start from different worlds (another state of the global
  generator, other requests and clock readings behind them) and meet another service and clock
  draw the same sequence, or fail alike. When numpy's permutation is one, the sequence has
  \<open>n_examples\<close> entries, all distinct, all indices of the split.
\<close>

theorem sample_indices_deterministic:
  assumes "seed_state env' = seed_state env" and "permutation env' = permutation env"
  shows "map_sum id fst (sample_indices env w seed n_pop n_examples) =
         map_sum id fst (sample_indices env' w' seed n_pop n_examples)
       \<and> (permutes_range env \<longrightarrow>
            (\<forall>ixs w1. sample_indices env w seed n_pop n_examples = Inr (ixs, w1) \<longrightarrow>
               length ixs = n_examples \<and> distinct ixs \<and> set ixs \<subseteq> {0..<n_pop}))"
proof (rule conjI)
  show "map_sum id fst (sample_indices env w seed n_pop n_examples) =
        map_sum id fst (sample_indices env' w' seed n_pop n_examples)"
    using assms by (simp add: sample_indices_def split: prod.splits)
next
  show "permutes_range env \<longrightarrow>
            (\<forall>ixs w1. sample_indices env w seed n_pop n_examples = Inr (ixs, w1) \<longrightarrow>
               length ixs = n_examples \<and> distinct ixs \<and> set ixs \<subseteq> {0..<n_pop})"
  proof (intro impI allI)
  fix ixs w1
  assume p: "permutes_range env"
    and s: "sample_indices env w seed n_pop n_examples = Inr (ixs, w1)"
  define perm where "perm = fst (permutation env (seed_state env seed) n_pop)"
  have m: "mset perm = mset [0..<n_pop]"
    using p by (simp add: permutes_range_def perm_def)
  have ixs: "ixs = take n_examples perm" and le: "n_examples \<le> n_pop"
    using sample_indices_Inr(1,5) [OF s] by (simp_all add: perm_def)
  have len: "length perm = n_pop"
    using mset_eq_length [OF m] by simp
  have d: "distinct perm"
    using m distinct_upt mset_eq_imp_distinct_iff by blast
  have st: "set perm = {0..<n_pop}"
    using mset_eq_setD [OF m] by simp
  show "length ixs = n_examples \<and> distinct ixs \<and> set ixs \<subseteq> {0..<n_pop}"
    using ixs le len d st set_take_subset [of n_examples perm] by auto
  qed
qed

theorem sample_indices_deterministic_witness:
  "permutes_range demo_env
   \<and> map_sum id fst (sample_indices demo_env demo_world 42 2 2) = Inr [1, 0]
   \<and> map_sum id fst (sample_indices backward_env (demo_world\<lparr>rng := 5, ticks := 9\<rparr>) 42 2 2) = Inr [1, 0]
   \<and> length [1, 0 :: nat] = 2 \<and> distinct [1, 0 :: nat] \<and> set [1, 0 :: nat] \<subseteq> {0..<2}"
proof -
  have g: "seed_state backward_env = seed_state demo_env"
    "permutation backward_env = permutation demo_env"
    by (simp_all add: backward_env_def)
  have a: "sample_indices demo_env demo_world 42 2 2 = Inr ([1, 0], demo_world\<lparr>rng := 43\<rparr>)"
    by (simp add: sample_indices_def demo_env_def upt_conv_Cons)
  note t = sample_indices_deterministic [OF g, of demo_world 42 2 2 "demo_world\<lparr>rng := 5, ticks := 9\<rparr>"]
  from t a permutes_range_demo show ?thesis by auto
qed

text \<open>
  C6: \<open>np.argmax\<close> returns an index of the maximum of the flattened scores, no earlier
  position holding a value as large; and a run that returns has printed, last, the number of
  drawn samples whose predicted class equals the ground-truth label, divided by \<open>n_examples\<close>.
\<close>

theorem eval_serving_performance_accuracy:
  "(\<forall>scores k. np_argmax scores = Inr k \<longrightarrow> first_max_index (concat scores) k)
   \<and> (\<forall>durations w'.
        eval_serving_performance env w n_examples n_print_examples request_url seed dataset
          use_graphpipe emnist_folder_path = Inr (durations, w') \<longrightarrow>
        (\<exists>ds ixs w1 evs.
           fst (load_emnist (download_emnist env) (disk w) emnist_folder_path False) = Inr ds
           \<and> sample_indices env w seed (length (fst (select_split dataset ds))) n_examples = Inr (ixs, w1)
           \<and> printed w' = printed w @ evs @
               [PrintAccuracy n_examples
                  (real (count_correct env use_graphpipe request_url (length (requests w))
                           (fst (select_split dataset ds)) (snd (select_split dataset ds)) ixs)
                   / real n_examples)]))"
proof (intro conjI allI impI)
  fix scores k
  assume "np_argmax scores = Inr k"
  then show "first_max_index (concat scores) k" by (rule np_argmax_first_max)
next
  fix durations w'
  assume "eval_serving_performance env w n_examples n_print_examples request_url seed dataset
            use_graphpipe emnist_folder_path = Inr (durations, w')"
  then obtain ds ixs w1 acc w2 where
    l: "fst (load_emnist (download_emnist env) (disk w) emnist_folder_path False) = Inr ds"
    and s: "sample_indices env w seed (length (fst (select_split dataset ds))) n_examples = Inr (ixs, w1)"
    and e: "eval_loop env use_graphpipe request_url dataset n_print_examples ds get_emnist_mapping
              0 ixs 0 [] w1 = Inr (acc, durations, w2)"
    and w': "w' = w2\<lparr>printed := printed w2 @ [PrintAccuracy n_examples (real acc / real n_examples)]\<rparr>"
    by (rule eval_serving_performance_Inr)
  from eval_loop_Inr [OF e] obtain evs where
    acc: "acc = count_correct env use_graphpipe request_url (length (requests w1))
                  (fst (select_split dataset ds)) (snd (select_split dataset ds)) ixs"
    and pr: "printed w2 = printed w1 @ evs"
    by auto
  have "printed w' = printed w @ evs @
               [PrintAccuracy n_examples
                  (real (count_correct env use_graphpipe request_url (length (requests w))
                           (fst (select_split dataset ds)) (snd (select_split dataset ds)) ixs)
                   / real n_examples)]"
    using w' acc pr sample_indices_Inr(3,4) [OF s] by simp
  with l s show "\<exists>ds ixs w1 evs.
           fst (load_emnist (download_emnist env) (disk w) emnist_folder_path False) = Inr ds
           \<and> sample_indices env w seed (length (fst (select_split dataset ds))) n_examples = Inr (ixs, w1)
           \<and> printed w' = printed w @ evs @
               [PrintAccuracy n_examples
                  (real (count_correct env use_graphpipe request_url (length (requests w))
                           (fst (select_split dataset ds)) (snd (select_split dataset ds)) ixs)
                   / real n_examples)]"
    by blast
qed

lemma demo_run:
  "\<exists>w'. eval_serving_performance demo_env demo_world 2 0 ''u'' 42 ''test'' False ''emnist_data/''
           = Inr ([250, 250], w')
        \<and> printed w' = [PrintAccuracy 2 (1 / 2)]"
  by (simp add: run_defs demo_defs)

theorem eval_serving_performance_accuracy_witness:
  "np_argmax [[0, 1, 0, 1]] = Inr 1 \<and> first_max_index [0, 1, 0, 1] 1
   \<and> (\<exists>durations w' ds ixs w1.
         eval_serving_performance demo_env demo_world 2 0 ''u'' 42 ''test'' False ''emnist_data/''
           = Inr (durations, w')
         \<and> fst (load_emnist (download_emnist demo_env) (disk demo_world) ''emnist_data/'' False) = Inr ds
         \<and> sample_indices demo_env demo_world 42 (length (fst (select_split ''test'' ds))) 2 = Inr (ixs, w1)
         \<and> printed w' = [PrintAccuracy 2 (1 / 2)]
         \<and> count_correct demo_env False ''u'' 0
              (fst (select_split ''test'' ds)) (snd (select_split ''test'' ds)) ixs = 1)"
proof -
  note t = eval_serving_performance_accuracy
    [of demo_env demo_world 2 0 "''u''" 42 "''test''" False "''emnist_data/''"]
  have a: "np_argmax [[0, 1, 0, 1]] = Inr 1"
    by (simp add: np_argmax_def)
  from t a have b: "first_max_index (concat [[0, 1, 0, 1]]) 1"
    by blast
  from demo_run obtain w' where
    run: "eval_serving_performance demo_env demo_world 2 0 ''u'' 42 ''test'' False ''emnist_data/''
            = Inr ([250, 250], w')"
    and pr: "printed w' = [PrintAccuracy 2 (1 / 2)]"
    by blast
  from t run obtain ds ixs w1 evs where
    l: "fst (load_emnist (download_emnist demo_env) (disk demo_world) ''emnist_data/'' False) = Inr ds"
    and s: "sample_indices demo_env demo_world 42 (length (fst (select_split ''test'' ds))) 2 = Inr (ixs, w1)"
    and p: "printed w' = printed demo_world @ evs @
               [PrintAccuracy 2
                  (real (count_correct demo_env False ''u'' (length (requests demo_world))
                           (fst (select_split ''test'' ds)) (snd (select_split ''test'' ds)) ixs)
                   / real 2)]"
    by blast
  from p pr have "count_correct demo_env False ''u'' 0
              (fst (select_split ''test'' ds)) (snd (select_split ''test'' ds)) ixs = 1"
    by (simp add: demo_world_def)
  with a b run l s pr show ?thesis by auto
qed

lemma latency_ms_trunc:
  "latency_ms env start stop =
     float_div env
       (real_of_int (if 0 \<le> float_mul env (float_sub env stop start) 1000000
                     then \<lfloor>float_mul env (float_sub env stop start) 1000000\<rfloor>
                     else \<lceil>float_mul env (float_sub env stop start) 1000000\<rceil>)) 1000"
  by (simp add: latency_ms_def py_int_def)

text \<open>
  C7, as amended: each latency a run records is the elapsed wall-clock time of the call as
  line 235 computes it in Python's float arithmetic: the float difference of the two clock
  readings, times \<open>10^6\<close> as a float product, cut to a whole number of microseconds toward
  zero (not rounded) by \<open>int\<close>, and divided by 1000. It is \<open>floor(product) / 1000\<close> when the
  product is not negative and \<open>ceil(product) / 1000\<close> when it is negative, the clock having
  been set back during the call. One latency is recorded per request, in the order of the
  requests, \<open>n_examples\<close> of them when numpy's permutation is one.
\<close>

theorem eval_serving_performance_latencies:
  assumes "eval_serving_performance env w n_examples n_print_examples request_url seed dataset
             use_graphpipe emnist_folder_path = Inr (durations, w')"
  shows "(permutes_range env \<longrightarrow> length durations = n_examples)
       \<and> (\<forall>p<length durations.
            durations ! p =
              float_div env
                (real_of_int
                   (if 0 \<le> float_mul env
                              (float_sub env (clock env (ticks w + 2 * p + 1))
                                 (clock env (ticks w + 2 * p))) 1000000
                    then \<lfloor>float_mul env
                            (float_sub env (clock env (ticks w + 2 * p + 1))
                               (clock env (ticks w + 2 * p))) 1000000\<rfloor>
                    else \<lceil>float_mul env
                            (float_sub env (clock env (ticks w + 2 * p + 1))
                               (clock env (ticks w + 2 * p))) 1000000\<rceil>))
                1000)"
proof -
  from assms obtain ds ixs w1 acc w2 where
    s: "sample_indices env w seed (length (fst (select_split dataset ds))) n_examples = Inr (ixs, w1)"
    and e: "eval_loop env use_graphpipe request_url dataset n_print_examples ds get_emnist_mapping
              0 ixs 0 [] w1 = Inr (acc, durations, w2)"
    by (rule eval_serving_performance_Inr)
  from eval_loop_Inr [OF e] sample_indices_Inr(2) [OF s]
  have d: "durations = map (\<lambda>p. latency_ms env (clock env (ticks w + 2 * p))
                                    (clock env (Suc (ticks w + 2 * p)))) [0..<length ixs]"
    by simp
  have len: "permutes_range env \<longrightarrow> length durations = n_examples"
  proof
    assume p: "permutes_range env"
    have m: "mset (fst (permutation env (seed_state env seed) (length (fst (select_split dataset ds)))))
           = mset [0..<length (fst (select_split dataset ds))]"
      using p by (simp add: permutes_range_def)
    have "length ixs = n_examples"
      using sample_indices_Inr(1,5) [OF s] mset_eq_length [OF m] by simp
    with d show "length durations = n_examples" by simp
  qed
  have each: "\<forall>p<length durations.
            durations ! p =
              float_div env
                (real_of_int
                   (if 0 \<le> float_mul env
                              (float_sub env (clock env (ticks w + 2 * p + 1))
                                 (clock env (ticks w + 2 * p))) 1000000
                    then \<lfloor>float_mul env
                            (float_sub env (clock env (ticks w + 2 * p + 1))
                               (clock env (ticks w + 2 * p))) 1000000\<rfloor>
                    else \<lceil>float_mul env
                            (float_sub env (clock env (ticks w + 2 * p + 1))
                               (clock env (ticks w + 2 * p))) 1000000\<rceil>))
                1000"
  proof (intro allI impI)
    fix p assume "p < length durations"
    then have "p < length ixs" using d by simp
    then have "durations ! p =
        latency_ms env (clock env (ticks w + 2 * p)) (clock env (Suc (ticks w + 2 * p)))"
      using d by simp
    then show "durations ! p =
              float_div env
                (real_of_int
                   (if 0 \<le> float_mul env
                              (float_sub env (clock env (ticks w + 2 * p + 1))
                                 (clock env (ticks w + 2 * p))) 1000000
                    then \<lfloor>float_mul env
                            (float_sub env (clock env (ticks w + 2 * p + 1))
                               (clock env (ticks w + 2 * p))) 1000000\<rfloor>
                    else \<lceil>float_mul env
                            (float_sub env (clock env (ticks w + 2 * p + 1))
                               (clock env (ticks w + 2 * p))) 1000000\<rceil>))
                1000"
      by (simp only: latency_ms_trunc Suc_eq_plus1)
  qed
  from len each show ?thesis by (rule conjI)
qed

theorem eval_serving_performance_latencies_witness:
  "permutes_range demo_env
   \<and> (\<exists>w'. eval_serving_performance demo_env demo_world 2 0 ''u'' 42 ''test'' False ''emnist_data/''
             = Inr ([250, 250], w'))
   \<and> 0 \<le> float_mul demo_env (float_sub demo_env (clock demo_env 1) (clock demo_env 0)) 1000000
   \<and> [250, 250] ! 0 =
       float_div demo_env
         (real_of_int \<lfloor>float_mul demo_env
                          (float_sub demo_env (clock demo_env 1) (clock demo_env 0)) 1000000\<rfloor>)
         1000
   \<and> length [250, 250 :: real] = 2"
proof -
  from demo_run obtain w' where
    run: "eval_serving_performance demo_env demo_world 2 0 ''u'' 42 ''test'' False ''emnist_data/''
            = Inr ([250, 250], w')"
    by (elim exE conjE) (rule that)
  note t = eval_serving_performance_latencies [OF run]
  have c: "0 \<le> float_mul demo_env (float_sub demo_env (clock demo_env 1) (clock demo_env 0)) 1000000"
    by (simp add: demo_env_def)
  have z: "(0 :: nat) < length [250, 250 :: real]" by simp
  have tk: "ticks demo_world + 2 * 0 + 1 = 1" "ticks demo_world + 2 * 0 = 0"
    by (simp_all add: demo_world_def)
  from t [THEN conjunct2, rule_format, OF z] c
  have d: "[250, 250] ! 0 =
       float_div demo_env
         (real_of_int \<lfloor>float_mul demo_env
                          (float_sub demo_env (clock demo_env 1) (clock demo_env 0)) 1000000\<rfloor>)
         1000"
    unfolding tk by simp
  from t [THEN conjunct1] permutes_range_demo have l: "length [250, 250 :: real] = 2"
    by simp
  have r: "\<exists>w'. eval_serving_performance demo_env demo_world 2 0 ''u'' 42 ''test'' False ''emnist_data/''
             = Inr ([250, 250], w')"
    using run by (rule exI)
  from permutes_range_demo r c d l show ?thesis by (intro conjI)
qed

text \<open>
  The claim as stated fails when the wall clock is set back during a call: with the readings
  \<open>1\<close> and \<open>1 - 2^-21\<close> the product is \<open>- 15625 / 32768\<close>, about minus half a microsecond;
  \<open>int\<close> cuts it to 0 and the recorded latency is 0, while
  \<open>floor(elapsed * 10^6) / 1000\<close> is \<open>-0.001\<close>.
\<close>

theorem latency_backward_clock_not_floor:
  "map_sum id fst
     (eval_serving_performance backward_env demo_world 1 0 ''u'' 42 ''test'' False ''emnist_data/'')
     = Inr [0]
   \<and> real_of_int \<lfloor>(clock backward_env 1 - clock backward_env 0) * 1000000\<rfloor> / 1000 = - (1 / 1000)"
  by (simp add: run_defs demo_defs ceiling_backward floor_backward)

text \<open>
  C8: with \<open>n_examples = 0\<close> the evaluator never returns; once the data are loaded and the
  seed is accepted, no sample is drawn, no request is sent, and the final division of the
  accumulator by \<open>n_examples\<close> raises ZeroDivisionError.
\<close>

theorem eval_serving_performance_zero_examples:
  "(\<exists>e. eval_serving_performance env w 0 n_print_examples request_url seed dataset
           use_graphpipe emnist_folder_path = Inl e)
   \<and> (\<forall>ds. fst (load_emnist (download_emnist env) (disk w) emnist_folder_path False) = Inr ds
           \<and> 0 \<le> seed \<and> seed < 2 ^ 32 \<longrightarrow>
         eval_serving_performance env w 0 n_print_examples request_url seed dataset
           use_graphpipe emnist_folder_path = Inl ZeroDivisionError)"
  by (auto simp: eval_serving_performance_def sample_indices_def py_truediv_def
           split: sum.splits prod.splits)

theorem eval_serving_performance_zero_examples_witness:
  "(\<exists>ds. fst (load_emnist (download_emnist demo_env) (disk demo_world) ''emnist_data/'' False) = Inr ds)
   \<and> (0::int) \<le> 42 \<and> (42::int) < 2 ^ 32
   \<and> eval_serving_performance demo_env demo_world 0 10 ''u'' 42 ''test'' False ''emnist_data/''
       = Inl ZeroDivisionError"
proof -
  from load_small obtain x_train x_test where
    "load_emnist no_network disk_data ''emnist_data/'' False =
           (Inr (x_train, [7], x_test, [1, 3], [[0, 48], [1, 49]]), disk_data)"
    by blast
  then have l: "fst (load_emnist (download_emnist demo_env) (disk demo_world) ''emnist_data/'' False)
                  = Inr (x_train, [7], x_test, [1, 3], [[0, 48], [1, 49]])"
    by (simp add: demo_env_def demo_world_def)
  note t = eval_serving_performance_zero_examples
    [of demo_env demo_world 10 "''u''" 42 "''test''" False "''emnist_data/''"]
  from t l have "eval_serving_performance demo_env demo_world 0 10 ''u'' 42 ''test'' False ''emnist_data/''
       = Inl ZeroDivisionError"
    by simp
  with l show ?thesis by simp
qed

section \<open>The throughput driver\<close>

text \<open>
  Total correctness of the loop: when the clock passes the end timestamp at the reading after
  \<open>k\<close> iterations and the service answers until then, the loop ends after exactly \<open>k\<close>
  iterations, each of which sent one batch and added \<open>batch_size\<close> to the counter.
\<close>

lemma throughput_loop_runs:
  assumes "\<forall>j<k. clock env (ticks w + j) \<le> end_time"
    and "end_time < clock env (ticks w + k)"
    and "\<forall>j<k. \<forall>p. \<exists>r. service env url (length (requests w) + j) p = Inr r"
  shows "\<exists>w'. throughput_loop env gp url data end_time batch_size num_reqs w =
                 Some (Inr (num_reqs + int k * batch_size, w'))
             \<and> ticks w' = ticks w + k + 1
             \<and> requests w' = requests w @
                 map (\<lambda>j. batch_payload gp (py_slice data (num_reqs + int j * batch_size)
                                                (num_reqs + int j * batch_size + batch_size)))
                     [0..<k]
             \<and> printed w' = printed w \<and> disk w' = disk w \<and> rng w' = rng w"
  using assms
proof (induction k arbitrary: num_reqs w)
  case 0
  then show ?case
    by (subst throughput_loop.simps) simp
next
  case (Suc k)
  let ?b = "batch_payload gp (py_slice data num_reqs (num_reqs + batch_size))"
  let ?w = "w\<lparr>ticks := Suc (ticks w), requests := requests w @ [?b]\<rparr>"
  from Suc.prems(1) have c0: "clock env (ticks w) \<le> end_time"
    by (metis add.right_neutral zero_less_Suc)
  from Suc.prems(3) obtain r where r: "service env url (length (requests w)) ?b = Inr r"
    by (metis add.right_neutral zero_less_Suc)
  have step: "throughput_loop env gp url data end_time batch_size num_reqs w =
              throughput_loop env gp url data end_time batch_size (num_reqs + batch_size) ?w"
    using c0 r by (subst throughput_loop.simps) simp
  have p1: "\<forall>j<k. clock env (ticks ?w + j) \<le> end_time"
    using Suc.prems(1) by (auto simp: less_Suc_eq_0_disj)
  have p2: "end_time < clock env (ticks ?w + k)"
    using Suc.prems(2) by simp
  have p3: "\<forall>j<k. \<forall>p. \<exists>r. service env url (length (requests ?w) + j) p = Inr r"
    using Suc.prems(3) by (auto simp: less_Suc_eq_0_disj)
  from Suc.IH [OF p1 p2 p3, of "num_reqs + batch_size"] obtain w' where
    res: "throughput_loop env gp url data end_time batch_size (num_reqs + batch_size) ?w =
            Some (Inr (num_reqs + batch_size + int k * batch_size, w'))"
    and t: "ticks w' = ticks ?w + k + 1"
    and q: "requests w' = requests ?w @
              map (\<lambda>j. batch_payload gp (py_slice data (num_reqs + batch_size + int j * batch_size)
                                             (num_reqs + batch_size + int j * batch_size + batch_size)))
                  [0..<k]"
    and o: "printed w' = printed ?w \<and> disk w' = disk ?w \<and> rng w' = rng ?w"
    by blast
  have m: "map (\<lambda>j. batch_payload gp (py_slice data (num_reqs + int j * batch_size)
                                          (num_reqs + int j * batch_size + batch_size)))
               [0..<Suc k] =
           ?b # map (\<lambda>j. batch_payload gp (py_slice data (num_reqs + batch_size + int j * batch_size)
                                             (num_reqs + batch_size + int j * batch_size + batch_size)))
                  [0..<k]"
    by (simp add: map_upt_Suc algebra_simps del: upt_Suc)
  have n: "num_reqs + batch_size + int k * batch_size = num_reqs + int (Suc k) * batch_size"
    by (simp add: algebra_simps)
  show ?case
    using step res t q o m n by (intro exI [of _ w']) (simp del: upt_Suc)
qed

lemma throughput_loop_multiple_aux:
  assumes "throughput_loop env gp url data end_time batch_size num_reqs w = Some y"
  shows "\<forall>n w'. y = Inr (n, w') \<longrightarrow>
           (\<exists>k. n = num_reqs + int k * batch_size
                \<and> length (requests w') = length (requests w) + k)"
proof (rule throughput_loop.raw_induct
    [where P = "\<lambda>env gp url data end_time batch_size num_reqs w y.
       \<forall>n w'. y = Inr (n, w') \<longrightarrow>
         (\<exists>k. n = num_reqs + int k * batch_size
              \<and> length (requests w') = length (requests w) + k)", OF _ assms])
  fix loop :: "'a env \<Rightarrow> bool \<Rightarrow> string \<Rightarrow> real list list list \<Rightarrow> real \<Rightarrow> int \<Rightarrow> int \<Rightarrow> 'a world
                 \<Rightarrow> (error + int \<times> 'a world) option"
  fix env gp url data end_time batch_size num_reqs w y
  assume IH: "\<And>env gp url data end_time batch_size num_reqs w y.
        loop env gp url data end_time batch_size num_reqs w = Some y \<Longrightarrow>
        \<forall>n w'. y = Inr (n, w') \<longrightarrow>
          (\<exists>k. n = num_reqs + int k * batch_size
               \<and> length (requests w') = length (requests w) + k)"
  let ?b = "batch_payload gp (py_slice data num_reqs (num_reqs + batch_size))"
  assume body: "(if clock env (ticks w) \<le> end_time
      then case service env url (length (requests w)) ?b of
           Inl e \<Rightarrow> Some (Inl e)
         | Inr x \<Rightarrow> loop env gp url data end_time batch_size (num_reqs + batch_size)
                     (w\<lparr>ticks := Suc (ticks w), requests := requests w @ [?b]\<rparr>)
      else Some (Inr (num_reqs, w\<lparr>ticks := Suc (ticks w)\<rparr>))) = Some y"
  show "\<forall>n w'. y = Inr (n, w') \<longrightarrow>
          (\<exists>k. n = num_reqs + int k * batch_size
               \<and> length (requests w') = length (requests w) + k)"
  proof (intro allI impI)
    fix n w'
    assume y: "y = Inr (n, w')"
    show "\<exists>k. n = num_reqs + int k * batch_size
               \<and> length (requests w') = length (requests w) + k"
    proof (cases "clock env (ticks w) \<le> end_time")
      case False
      with body y have "n = num_reqs + int 0 * batch_size
                        \<and> length (requests w') = length (requests w) + 0"
        by auto
      then show ?thesis by blast
    next
      case True
      with body y have
        rec: "loop env gp url data end_time batch_size (num_reqs + batch_size)
                (w\<lparr>ticks := Suc (ticks w), requests := requests w @ [?b]\<rparr>) = Some (Inr (n, w'))"
        by (auto split: sum.splits)
      from IH [OF rec] obtain k where
        "n = num_reqs + batch_size + int k * batch_size"
        "length (requests w') = length (requests w) + 1 + k"
        by auto
      then have "n = num_reqs + int (Suc k) * batch_size
                 \<and> length (requests w') = length (requests w) + Suc k"
        by (simp add: algebra_simps)
      then show ?thesis by blast
    qed
  qed
qed

lemma throughput_loop_multiple:
  assumes "throughput_loop env gp url data end_time batch_size num_reqs w = Some (Inr (n, w'))"
  shows "\<exists>k. n = num_reqs + int k * batch_size
            \<and> length (requests w') = length (requests w) + k"
  using throughput_loop_multiple_aux [OF assms] by blast

lemma eval_throughput_Inr:
  assumes "eval_throughput env w duration url batch_size dataset gp folder = Some (Inr ((n, r), w'))"
  obtains x_train y_train x_test y_test mapping where
    "fst (load_emnist (download_emnist env) (disk w) folder False)
       = Inr (x_train, y_train, x_test, y_test, mapping)"
    "throughput_loop env gp url
       (reshape_scale (if dataset = ''train'' then x_train else x_test))
       (clock env (ticks w) + duration) batch_size 0 (w\<lparr>ticks := Suc (ticks w)\<rparr>)
       = Some (Inr (n, w'))"
    "py_truediv (real_of_int n) duration = Inr r"
  using assms
  by (auto simp: eval_throughput_def Let_def split: sum.splits prod.splits option.splits)

lemma eval_throughput_runs:
  assumes l: "fst (load_emnist (download_emnist env) (disk w) folder False)
                = Inr (x_train, y_train, x_test, y_test, mapping)"
    and c: "\<forall>j<k. clock env (ticks w + 1 + j) \<le> clock env (ticks w) + duration"
    and e: "clock env (ticks w) + duration < clock env (ticks w + 1 + k)"
    and s: "\<forall>j<k. \<forall>p. \<exists>r. service env url (length (requests w) + j) p = Inr r"
    and d: "duration \<noteq> 0"
  shows "\<exists>w'. eval_throughput env w duration url batch_size dataset gp folder =
           Some (Inr ((int k * batch_size, real_of_int (int k * batch_size) / duration), w'))
         \<and> requests w' = requests w @
             map (\<lambda>j. batch_payload gp
                        (py_slice (reshape_scale (if dataset = ''train'' then x_train else x_test))
                           (int j * batch_size) (int j * batch_size + batch_size)))
                 [0..<k]"
proof -
  let ?w = "w\<lparr>ticks := Suc (ticks w)\<rparr>"
  let ?data = "reshape_scale (if dataset = ''train'' then x_train else x_test)"
  have p1: "\<forall>j<k. clock env (ticks ?w + j) \<le> clock env (ticks w) + duration"
    using c by simp
  have p2: "clock env (ticks w) + duration < clock env (ticks ?w + k)"
    using e by simp
  have p3: "\<forall>j<k. \<forall>p. \<exists>r. service env url (length (requests ?w) + j) p = Inr r"
    using s by simp
  from throughput_loop_runs [OF p1 p2 p3, of gp ?data batch_size 0] obtain w' where
    res: "throughput_loop env gp url ?data (clock env (ticks w) + duration) batch_size 0 ?w =
            Some (Inr (int k * batch_size, w'))"
    and q: "requests w' = requests w @
             map (\<lambda>j. batch_payload gp (py_slice ?data (int j * batch_size)
                                            (int j * batch_size + batch_size))) [0..<k]"
    by auto
  have "eval_throughput env w duration url batch_size dataset gp folder =
           Some (Inr ((int k * batch_size, real_of_int (int k * batch_size) / duration), w'))"
    using l res d by (simp add: eval_throughput_def py_truediv_def Let_def)
  with q show ?thesis by blast
qed

lemma demo_load:
  "\<exists>x_train x_test.
     fst (load_emnist (download_emnist demo_env) (disk demo_world) ''emnist_data/'' False)
       = Inr (x_train, [7], x_test, [1, 3], [[0, 48], [1, 49]])
     \<and> length x_train = 1 \<and> length x_test = 2"
  by (simp add: demo_env_def demo_world_def loader_defs disk_data_def small_archive_def
        bright_pixel_row_def no_network_def)

lemma demo_clock:
  "\<forall>j<4. clock demo_env (ticks demo_world + 1 + j) \<le> clock demo_env (ticks demo_world) + 1"
  "clock demo_env (ticks demo_world) + 1 < clock demo_env (ticks demo_world + 1 + 4)"
  "\<forall>j<4. \<forall>p. \<exists>r. service demo_env ''u'' (length (requests demo_world) + j) p = Inr r"
  by (simp_all add: demo_env_def demo_world_def)

lemma demo_throughput:
  "\<exists>w'. eval_throughput demo_env demo_world 1 ''u'' 3 dataset False ''emnist_data/''
           = Some (Inr ((12, 12), w'))
        \<and> (if dataset = ''train'' then True else map payload_size (requests w') = [2, 0, 0, 0])"
proof -
  from demo_load obtain x_train x_test where
    l: "fst (load_emnist (download_emnist demo_env) (disk demo_world) ''emnist_data/'' False)
          = Inr (x_train, [7], x_test, [1, 3], [[0, 48], [1, 49]])"
    and n: "length x_test = 2"
    by (elim exE conjE) (rule that)
  have d: "(1 :: real) \<noteq> 0" by simp
  from eval_throughput_runs [OF l demo_clock d, of 3 dataset False] obtain w' where
    run: "eval_throughput demo_env demo_world 1 ''u'' 3 dataset False ''emnist_data/''
            = Some (Inr ((int 4 * 3, real_of_int (int 4 * 3) / 1), w'))"
    and q: "requests w' = requests demo_world @
             map (\<lambda>j. batch_payload False
                        (py_slice (reshape_scale (if dataset = ''train'' then x_train else x_test))
                           (int j * 3) (int j * 3 + 3)))
                 [0..<4]"
    by (elim exE conjE) (rule that)
  have sizes: "if dataset = ''train'' then True else map payload_size (requests w') = [2, 0, 0, 0]"
    using q n
    by (simp add: demo_world_def batch_payload_def py_slice_def reshape_scale_def upt_conv_Cons
          length_concat comp_def sum_list_triv take_map drop_map)
  from run have "eval_throughput demo_env demo_world 1 ''u'' 3 dataset False ''emnist_data/''
            = Some (Inr ((12, 12), w'))"
    by simp
  with sizes show ?thesis by (intro exI [of _ w']) simp
qed



text \<open>
  C10: the counter \<open>eval_throughput\<close> returns is \<open>k * batch_size\<close> for the number \<open>k\<close> of
  requests it sent (hence not negative for a batch size that is not), whatever the slices held.
  On a split of two images with batches of three, four requests report twelve while the
  payloads carried two examples, then none: slices past the end are short or empty and the
  counter advances by the full batch size all the same.
\<close>

theorem eval_throughput_multiple_of_batch_size:
  "(\<forall>n r w'. eval_throughput env w duration request_url batch_size dataset use_graphpipe
                emnist_folder_path = Some (Inr ((n, r), w')) \<longrightarrow>
       (\<exists>k. n = int k * batch_size \<and> length (requests w') = length (requests w) + k)
       \<and> (0 \<le> batch_size \<longrightarrow> 0 \<le> n))
   \<and> (\<exists>w'. eval_throughput demo_env demo_world 1 ''u'' 3 ''test'' False ''emnist_data/''
              = Some (Inr ((12, 12), w'))
           \<and> map payload_size (requests w') = [2, 0, 0, 0]
           \<and> examples_sent w' = 2)"
proof (rule conjI)
  show "\<forall>n r w'. eval_throughput env w duration request_url batch_size dataset use_graphpipe
                emnist_folder_path = Some (Inr ((n, r), w')) \<longrightarrow>
       (\<exists>k. n = int k * batch_size \<and> length (requests w') = length (requests w) + k)
       \<and> (0 \<le> batch_size \<longrightarrow> 0 \<le> n)"
  proof (intro allI impI)
    fix n r w'
    assume "eval_throughput env w duration request_url batch_size dataset use_graphpipe
                emnist_folder_path = Some (Inr ((n, r), w'))"
    then obtain data where
      "throughput_loop env use_graphpipe request_url data (clock env (ticks w) + duration)
         batch_size 0 (w\<lparr>ticks := Suc (ticks w)\<rparr>) = Some (Inr (n, w'))"
      by (rule eval_throughput_Inr)
    from throughput_loop_multiple [OF this] obtain k where
      k: "n = int k * batch_size" "length (requests w') = length (requests w) + k"
      by auto
    then have "0 \<le> batch_size \<longrightarrow> 0 \<le> n" by simp
    with k show "(\<exists>k. n = int k * batch_size \<and> length (requests w') = length (requests w) + k)
       \<and> (0 \<le> batch_size \<longrightarrow> 0 \<le> n)"
      by blast
  qed
next
  have "\<exists>w'. eval_throughput demo_env demo_world 1 ''u'' 3 ''test'' False ''emnist_data/''
              = Some (Inr ((12, 12), w'))
           \<and> map payload_size (requests w') = [2, 0, 0, 0]"
    using demo_throughput [of "''test''"] by simp
  then obtain w' where
    run: "eval_throughput demo_env demo_world 1 ''u'' 3 ''test'' False ''emnist_data/''
       = Some (Inr ((12, 12), w'))"
    and sizes: "map payload_size (requests w') = [2, 0, 0, 0]"
    by (elim exE conjE) (rule that)
  from sizes have sent: "examples_sent w' = 2"
    by (simp add: examples_sent_def)
  from run sizes sent
  show "\<exists>w'. eval_throughput demo_env demo_world 1 ''u'' 3 ''test'' False ''emnist_data/''
              = Some (Inr ((12, 12), w'))
           \<and> map payload_size (requests w') = [2, 0, 0, 0]
           \<and> examples_sent w' = 2"
    by (intro exI [of _ w'] conjI)
qed

theorem eval_throughput_multiple_of_batch_size_witness:
  "\<exists>w' k. eval_throughput demo_env demo_world 1 ''u'' 3 ''test'' False ''emnist_data/''
            = Some (Inr ((12, 12), w'))
         \<and> (12 :: int) = int k * 3 \<and> length (requests w') = k \<and> examples_sent w' = 2"
proof -
  note t = eval_throughput_multiple_of_batch_size
    [of demo_env demo_world 1 "''u''" 3 "''test''" False "''emnist_data/''"]
  from t [THEN conjunct2] obtain w' where
    run: "eval_throughput demo_env demo_world 1 ''u'' 3 ''test'' False ''emnist_data/''
            = Some (Inr ((12, 12), w'))"
    and sent: "examples_sent w' = 2"
    by (elim exE conjE) (rule that)
  from t [THEN conjunct1, rule_format, OF run, THEN conjunct1] obtain k where
    k: "(12 :: int) = int k * 3"
    and len: "length (requests w') = length (requests demo_world) + k"
    by (elim exE conjE) (rule that)
  from len have len': "length (requests w') = k"
    by (simp add: demo_world_def)
  from run k len' sent show ?thesis
    by (intro exI [of _ w'] exI [of _ k] conjI)
qed

section \<open>The selection of the split\<close>







end
